theory Spec2Isabelle
  imports Main "HOL-Library.Sublist"
begin

section \<open>Data model of the isolate command\<close>

text \<open>
  The development follows the last revision of \<^verbatim>\<open>cli/commands/isolate.js\<close>
  (the class \<^verbatim>\<open>Isolate extends Install\<close> with the field
  \<^verbatim>\<open>siblingWorkspaces\<close>). A thrown exception is a value of type \<open>error\<close>.
\<close>

datatype error =
    MessageError string
  | TypeError
  | InvariantViolation string
  | CollaboratorError string

text \<open>Everything the hooks write to the reporter, the console or the file system.\<close>

datatype event =
    FsExists string
  | ReadJson string
  | ConsoleWarn string
  | ReporterWarn string string

text \<open>
  A package reference (\<^verbatim>\<open>pkg._reference\<close>): its registry and the list of
  dependency patterns, which is absent (\<^verbatim>\<open>undefined\<close>) until the first push.
\<close>

record reference =
  registry :: string
  dependencies :: "string list option"

text \<open>
  A manifest object. The dependency buckets are read with a computed key
  (\<^verbatim>\<open>manifest[dependencyType]\<close>), so they are a map from the type's name to the
  bucket, itself a map from package name to version range.
\<close>

record Manifest =
  name :: string
  version :: string
  reference :: "reference option"
  buckets :: "string \<rightharpoonup> (string \<rightharpoonup> string)"

record flags =
  tilde :: bool
  exact :: bool

text \<open>
  \<open>save_prefix\<close> is \<^verbatim>\<open>String(config.getOption('save-prefix'))\<close> and
  \<open>save_exact\<close> is \<^verbatim>\<open>Boolean(config.getOption('save-exact'))\<close>.
  \<open>workspaceRootFolder\<close> is \<open>None\<close> outside of a workspace project.
\<close>

record config =
  cwd :: string
  lockfileFolder :: string
  workspaceRootFolder :: "string option"
  save_prefix :: string
  save_exact :: bool

text \<open>The result of \<^verbatim>\<open>normalizePattern\<close>.\<close>

record normalized =
  np_name :: string
  np_range :: string
  np_hasVersion :: bool

text \<open>
  The functions that \<^verbatim>\<open>isolate.js\<close> imports from other modules
  (\<^verbatim>\<open>util/normalize-pattern.js\<close>, \<^verbatim>\<open>resolvers/index.js\<close> and the
  \<^verbatim>\<open>semver\<close> package). They are parameters of the model; \<open>getExoticResolver\<close>
  and \<open>semver_valid\<close> keep only the truthiness of the value the function returns.
  The last parameter is what \<^verbatim>\<open>resolver.replacePattern(old, new)\<close> does to the
  resolver's pattern table (a map from pattern to the address of a manifest object): the
  resolver class is not among the sources either.
\<close>

record externals =
  normalizePattern :: "string \<Rightarrow> normalized"
  getExoticResolver :: "string \<Rightarrow> bool"
  semver_satisfies :: "string \<Rightarrow> string \<Rightarrow> bool"
  semver_valid :: "string \<Rightarrow> bool"
  replaceInTable :: "(string \<rightharpoonup> nat) \<Rightarrow> string \<Rightarrow> string \<Rightarrow> (string \<rightharpoonup> nat)"

section \<open>The version policy\<close>

text \<open>JavaScript truthiness of a string that may be \<^verbatim>\<open>undefined\<close>.\<close>

fun truthy :: "string option \<Rightarrow> bool" where
  "truthy None = False"
| "truthy (Some s) = (s \<noteq> [])"

text \<open>
  The condition of the \<^verbatim>\<open>else if\<close> of \<^verbatim>\<open>getPatternVersion\<close>:
  \<^verbatim>\<open>hasVersion && range && (semver.satisfies(pkg.version, range) || getExoticResolver(range))\<close>.
\<close>

definition rangeKept :: "externals \<Rightarrow> string \<Rightarrow> Manifest \<Rightarrow> bool" where
  "rangeKept X p pkg =
     (np_hasVersion (normalizePattern X p) \<and> np_range (normalizePattern X p) \<noteq> [] \<and>
      (semver_satisfies X (version pkg) (np_range (normalizePattern X p)) \<or>
       getExoticResolver X (np_range (normalizePattern X p))))"

text \<open>
  The first \<^verbatim>\<open>if\<close>/\<^verbatim>\<open>else if\<close> of \<^verbatim>\<open>getPatternVersion\<close>: the
  value of the local \<^verbatim>\<open>version\<close> before the prefix is considered
  (\<open>None\<close> while it is \<^verbatim>\<open>undefined\<close>).
\<close>

definition keptVersion :: "externals \<Rightarrow> string \<Rightarrow> Manifest \<Rightarrow> string option" where
  "keptVersion X p pkg =
     (if getExoticResolver X p then Some p
      else if rangeKept X p pkg then Some (np_range (normalizePattern X p))
      else None)"

text \<open>
  The second \<^verbatim>\<open>if\<close>: an absent, empty or semver-valid \<^verbatim>\<open>version\<close> is
  replaced by prefix and resolved version; the prefix is \<^verbatim>\<open>~\<close> with the tilde
  flag, else empty when a version was kept or exactness is asked for, else the configured
  prefix (\<^verbatim>\<open>^\<close> when that is empty).
\<close>

definition getPatternVersion :: "externals \<Rightarrow> flags \<Rightarrow> config \<Rightarrow> string \<Rightarrow> Manifest \<Rightarrow> string" where
  "getPatternVersion X fl cfg pattern pkg =
     (let configPrefix = save_prefix cfg;
          isExact = (exact fl \<or> save_exact cfg \<or> configPrefix = []);
          v = keptVersion X pattern pkg
      in if (if truthy v then semver_valid X (the v) else True)
         then (let prefix = (if tilde fl then ''~''
                             else if truthy v \<or> isExact then []
                             else if configPrefix = [] then ''^'' else configPrefix)
               in prefix @ version pkg)
         else the v)"

section \<open>The state of an isolate run\<close>

text \<open>
  A dependency request as \<^verbatim>\<open>prepareRequests\<close> builds it; \<open>req_registry\<close> is its
  field \<^verbatim>\<open>registry\<close>.
\<close>

record DependencyRequest =
  pattern :: string
  req_registry :: string
  optional :: bool

text \<open>
  The fields of the \<^verbatim>\<open>Isolate\<close> object that the hooks read or write.
  \<open>siblingWorkspaces\<close> is \<open>None\<close> while the field is \<^verbatim>\<open>undefined\<close>: the class
  declares it with a type and no initial value, and the constructor does not assign it.
  The resolver's pattern table maps a pattern to the address of a manifest object in
  \<open>heap\<close>, so that two patterns can name the same object. \<open>replaced\<close> records the calls
  of \<^verbatim>\<open>resolver.replacePattern\<close>, \<open>events\<close> what was written to the reporter, the
  console and the file system. \<open>rootPatternsToOrigin\<close> is an object whose key order is
  observable (\<^verbatim>\<open>Object.keys\<close>), hence an association list. It and
  \<open>flagToOrigin\<close> are read by \<^verbatim>\<open>_iterateAddedPackages\<close> and assigned nowhere
  in \<^verbatim>\<open>isolate.js\<close>: they are taken as they are found. \<open>flagToOrigin\<close> is
  \<open>None\<close> while the field is \<^verbatim>\<open>undefined\<close>, as it is on an object that the
  constructor of \<^verbatim>\<open>Isolate\<close> has just built.
\<close>

record Isolate =
  flags :: flags
  config :: config
  siblingWorkspaces :: "string list option"
  resolver_patterns :: "string \<rightharpoonup> nat"
  heap :: "nat \<Rightarrow> Manifest"
  replaced :: "(string \<times> string) list"
  rootPatternsToOrigin :: "(string \<times> string) list"
  flagToOrigin :: "string option"
  events :: "event list"

subsection \<open>The resolver\<close>

text \<open>
  Modelled from the spec: the resolver class is not among the sources. The spec lists
  \<^verbatim>\<open>getResolvedPattern(pattern)\<close>, which answers the resolved package of a pattern
  (\<^verbatim>\<open>undefined\<close> when the table has none),
  \<^verbatim>\<open>getStrictResolvedPattern(pattern)\<close>, which answers it or throws, and
  \<^verbatim>\<open>replacePattern(old, new)\<close>, which makes the canonical pattern a key of the
  table. The call is recorded; what happens to the table, and so whether the provisional
  key can still be looked up afterwards, is the parameter \<open>replaceInTable\<close>.
\<close>

definition getResolvedPattern :: "Isolate \<Rightarrow> string \<Rightarrow> Manifest option" where
  "getResolvedPattern st p = map_option (heap st) (resolver_patterns st p)"

definition getStrictResolvedPattern :: "Isolate \<Rightarrow> string \<Rightarrow> error + nat" where
  "getStrictResolvedPattern st p =
     (case resolver_patterns st p of
        None \<Rightarrow> Inl (InvariantViolation ''expected manifest'')
      | Some a \<Rightarrow> Inr a)"

definition replacePattern :: "externals \<Rightarrow> Isolate \<Rightarrow> string \<Rightarrow> string \<Rightarrow> Isolate" where
  "replacePattern X st old new =
     st\<lparr>resolver_patterns := replaceInTable X (resolver_patterns st) old new,
        replaced := replaced st @ [(old, new)]\<rparr>"

text \<open>
  Two table updates: the alias that the spec describes ("so later lookups by either
  string succeed"), and the move of a resolver that adds the new pattern and then removes
  the old one.
\<close>

definition aliasEntry :: "(string \<rightharpoonup> nat) \<Rightarrow> string \<Rightarrow> string \<Rightarrow> (string \<rightharpoonup> nat)" where
  "aliasEntry t old new = t(new := t old)"

definition moveEntry :: "(string \<rightharpoonup> nat) \<Rightarrow> string \<Rightarrow> string \<Rightarrow> (string \<rightharpoonup> nat)" where
  "moveEntry t old new = (t(new := t old))(old := None)"

section \<open>Injecting the sibling requests\<close>

text \<open>
  \<^verbatim>\<open>prepareRequests\<close> copies the requests and pushes one request per sibling.
  Iterating \<^verbatim>\<open>undefined\<close> with \<^verbatim>\<open>for ... of\<close> throws a TypeError.
\<close>

definition siblingRequest :: "string \<Rightarrow> DependencyRequest" where
  "siblingRequest workspace = \<lparr>pattern = workspace, req_registry = ''npm'', optional = False\<rparr>"

definition prepareRequests :: "Isolate \<Rightarrow> DependencyRequest list \<Rightarrow> error + DependencyRequest list" where
  "prepareRequests st requests =
     (case siblingWorkspaces st of
        None \<Rightarrow> Inl TypeError
      | Some ws \<Rightarrow> Inr (foldl (\<lambda>requestsWithArgs workspace. requestsWithArgs @ [siblingRequest workspace])
                         requests ws))"

section \<open>Canonical patterns\<close>

text \<open>
  The loop of \<^verbatim>\<open>preparePatterns\<close>. A pattern the resolver does not know gives
  \<^verbatim>\<open>pkg = undefined\<close>, and every path through \<^verbatim>\<open>getPatternVersion\<close> and
  the template string then reads a property of it: a TypeError. The loop answers the
  state it has reached, also when it throws.
\<close>

definition newPatternOf :: "externals \<Rightarrow> Isolate \<Rightarrow> string \<Rightarrow> Manifest \<Rightarrow> string" where
  "newPatternOf X st p pkg = name pkg @ ''@'' @ getPatternVersion X (flags st) (config st) p pkg"

fun preparePatterns_loop ::
  "externals \<Rightarrow> string list \<Rightarrow> string list \<Rightarrow> Isolate \<Rightarrow> (error + string list) \<times> Isolate" where
  "preparePatterns_loop X [] preparedPatterns st = (Inr preparedPatterns, st)"
| "preparePatterns_loop X (p # rest) preparedPatterns st =
     (case getResolvedPattern st p of
        None \<Rightarrow> (Inl TypeError, st)
      | Some pkg \<Rightarrow>
          preparePatterns_loop X rest (preparedPatterns @ [newPatternOf X st p pkg])
            (if newPatternOf X st p pkg = p then st
             else replacePattern X st p (newPatternOf X st p pkg)))"

text \<open>
  A call of \<^verbatim>\<open>preparePatterns\<close> with the state it leaves behind, whether it
  returns or throws.
\<close>

definition preparePatterns_run ::
  "externals \<Rightarrow> Isolate \<Rightarrow> string list \<Rightarrow> (error + string list) \<times> Isolate" where
  "preparePatterns_run X st patterns =
     (case siblingWorkspaces st of
        None \<Rightarrow> (Inl TypeError, st)
      | Some ws \<Rightarrow> preparePatterns_loop X ws patterns st)"

text \<open>The same call as the caller sees it: the error, or the patterns and the new state.\<close>

definition preparePatterns :: "externals \<Rightarrow> Isolate \<Rightarrow> string list \<Rightarrow> error + (string list \<times> Isolate)" where
  "preparePatterns X st patterns =
     (case preparePatterns_run X st patterns of
        (Inl e, st') \<Rightarrow> Inl e
      | (Inr preparedPatterns, st') \<Rightarrow> Inr (preparedPatterns, st'))"

text \<open>
  A sibling pattern is settled in a state when the resolver no longer has it or its
  recomputed canonical pattern is the pattern itself.
\<close>

definition settled :: "externals \<Rightarrow> Isolate \<Rightarrow> string \<Rightarrow> bool" where
  "settled X st p =
     (case getResolvedPattern st p of
        None \<Rightarrow> True
      | Some pkg \<Rightarrow> newPatternOf X st p pkg = p)"

section \<open>Folding the siblings into the target\<close>

text \<open>
  The dependency type of an added package: the \<^verbatim>\<open>reduce\<close> over the keys of
  \<^verbatim>\<open>rootPatternsToOrigin\<close> keeps the origin of the last key that starts with
  \<^verbatim>\<open>name@\<close>, and \<^verbatim>\<open>depType || this.flagToOrigin\<close> falls back to the
  field. The result is only used as a property key (\<^verbatim>\<open>manifest[dependencyType]\<close>),
  and the key of \<^verbatim>\<open>undefined\<close> is the string \<^verbatim>\<open>undefined\<close>.
  \<open>patternOrigins\<close> is computed once, before the loop.
\<close>

definition depTypeOf :: "Isolate \<Rightarrow> string list \<Rightarrow> Manifest \<Rightarrow> string option" where
  "depTypeOf st patternOrigins pkg =
     foldl (\<lambda>acc prev. if prefix (name pkg @ ''@'') prev
                       then map_of (rootPatternsToOrigin st) prev else acc)
       None patternOrigins"

definition targetOf :: "Isolate \<Rightarrow> string list \<Rightarrow> Manifest \<Rightarrow> string" where
  "targetOf st patternOrigins pkg =
     (if truthy (depTypeOf st patternOrigins pkg) then the (depTypeOf st patternOrigins pkg)
      else (case flagToOrigin st of None \<Rightarrow> ''undefined'' | Some t \<Rightarrow> t))"

text \<open>
  \<^verbatim>\<open>_iterateAddedPackages\<close> calls \<open>f\<close> once per sibling, in order. The callback of
  the source closes over the variables it assigns (\<^verbatim>\<open>newPatterns\<close> and the target's
  manifest object); here it takes them and answers them, together with the state, and
  each iteration reads the resolver of the state the callback left.
\<close>

fun iterateAddedPackages ::
  "externals \<Rightarrow> string list \<Rightarrow>
   (string \<Rightarrow> string \<Rightarrow> string \<Rightarrow> string \<Rightarrow> string \<Rightarrow> string list \<times> Isolate \<Rightarrow> error + (string list \<times> Isolate)) \<Rightarrow>
   string list \<Rightarrow> string list \<times> Isolate \<Rightarrow> error + (string list \<times> Isolate)" where
  "iterateAddedPackages X patternOrigins f [] acc = Inr acc"
| "iterateAddedPackages X patternOrigins f (p # rest) acc =
     (case getResolvedPattern (snd acc) p of
        None \<Rightarrow> Inl (InvariantViolation ''missing package'')
      | Some pkg \<Rightarrow>
          (case reference pkg of
             None \<Rightarrow> Inl (InvariantViolation ''expected package reference'')
           | Some ref \<Rightarrow>
               (case f p (registry ref) (targetOf (snd acc) patternOrigins pkg) (name pkg)
                       (getPatternVersion X (flags (snd acc)) (config (snd acc)) p pkg) acc of
                  Inl e \<Rightarrow> Inl e
                | Inr acc' \<Rightarrow> iterateAddedPackages X patternOrigins f rest acc')))"

text \<open>
  The callback that \<^verbatim>\<open>preparePatternsForLinking\<close> passes; \<open>a\<close> is the address of
  the target's resolved manifest. It removes the pattern from the list (which must
  contain it), makes sure the bucket of the dependency type exists, and, unless the
  bucket already holds the package at this version, pushes the pattern on the
  dependency list of the manifest's reference.
\<close>

definition linkingCallback ::
  "nat \<Rightarrow> string \<Rightarrow> string \<Rightarrow> string \<Rightarrow> string \<Rightarrow> string \<Rightarrow> string list \<times> Isolate \<Rightarrow>
   error + (string list \<times> Isolate)" where
  "linkingCallback a p reg dependencyType pkgName v acc =
     (let newPatterns = fst acc; st = snd acc;
          filtered = filter (\<lambda>q. q \<noteq> p) newPatterns
      in if length filtered < length newPatterns
         then (let bucket = (case buckets (heap st a) dependencyType of
                               None \<Rightarrow> Map.empty | Some b \<Rightarrow> b);
                   manifest1 = (heap st a)\<lparr>buckets := (buckets (heap st a))(dependencyType \<mapsto> bucket)\<rparr>
               in if bucket pkgName = Some v
                  then Inr (filtered, st\<lparr>heap := (heap st)(a := manifest1)\<rparr>)
                  else (case reference manifest1 of
                          None \<Rightarrow> Inl (InvariantViolation ''manifest._reference should not be null'')
                        | Some ref \<Rightarrow>
                            Inr (filtered,
                                 st\<lparr>heap := (heap st)(a := manifest1\<lparr>reference :=
                                    Some (ref\<lparr>dependencies :=
                                      Some ((case dependencies ref of None \<Rightarrow> [] | Some ds \<Rightarrow> ds) @ [p])\<rparr>)\<rparr>)\<rparr>)))
         else Inl (InvariantViolation ''expect added pattern in the list''))"

definition preparePatternsForLinking ::
  "externals \<Rightarrow> Isolate \<Rightarrow> string list \<Rightarrow> Manifest \<Rightarrow> bool \<Rightarrow> error + (string list \<times> Isolate)" where
  "preparePatternsForLinking X st patterns cwdManifest cwdIsRoot =
     (if cwdIsRoot then Inr (patterns, st)
      else (let cwdPackage = name cwdManifest @ ''@'' @ version cwdManifest
            in case getStrictResolvedPattern st cwdPackage of
                 Inl e \<Rightarrow> Inr (patterns, st\<lparr>events := events st @ [ReporterWarn ''unknownPackage'' cwdPackage]\<rparr>)
               | Inr a \<Rightarrow>
                   (case siblingWorkspaces st of
                      None \<Rightarrow> Inl TypeError
                    | Some ws \<Rightarrow>
                        iterateAddedPackages X (map fst (rootPatternsToOrigin st))
                          (linkingCallback a) ws (patterns, st))))"

section \<open>Sibling discovery and init\<close>

text \<open>An entry of the object that \<^verbatim>\<open>config.resolveWorkspaces\<close> answers.\<close>

record workspace =
  loc :: string
  manifest :: Manifest

text \<open>
  What discovery consumes from outside of \<^verbatim>\<open>isolate.js\<close>: the manifest
  filenames of \<^verbatim>\<open>Object.keys(registries)\<close> in order, \<^verbatim>\<open>path.join\<close>,
  \<^verbatim>\<open>fs.exists\<close>, \<^verbatim>\<open>config.readJson\<close>, \<^verbatim>\<open>normalizeManifest\<close> (which
  updates the manifest it is given, or throws) and \<^verbatim>\<open>config.resolveWorkspaces\<close>,
  whose answer is an object keyed by workspace name: an association list in key order.
\<close>

record world =
  registryFilenames :: "string list"
  path_join :: "string \<Rightarrow> string \<Rightarrow> string"
  fs_exists :: "string \<Rightarrow> bool"
  readJson :: "string \<Rightarrow> error + Manifest"
  normalizeManifest :: "Manifest \<Rightarrow> string \<Rightarrow> bool \<Rightarrow> error + Manifest"
  resolveWorkspaces :: "string \<Rightarrow> Manifest \<Rightarrow> error + (string \<times> workspace) list"

text \<open>
  The loop over the registries: the first filename that exists in the lockfile folder
  and in the working directory. The second \<^verbatim>\<open>fs.exists\<close> is only reached when the
  first answered true.
\<close>

fun findRegistry :: "world \<Rightarrow> config \<Rightarrow> string list \<Rightarrow> event list \<Rightarrow> (string \<times> string) option \<times> event list" where
  "findRegistry W cfg [] evs = (None, evs)"
| "findRegistry W cfg (filename # rest) evs =
     (if fs_exists W (path_join W (lockfileFolder cfg) filename)
      then (if fs_exists W (path_join W (cwd cfg) filename)
            then (Some (path_join W (lockfileFolder cfg) filename, path_join W (cwd cfg) filename),
                  evs @ [FsExists (path_join W (lockfileFolder cfg) filename),
                         FsExists (path_join W (cwd cfg) filename)])
            else findRegistry W cfg rest
                   (evs @ [FsExists (path_join W (lockfileFolder cfg) filename),
                           FsExists (path_join W (cwd cfg) filename)]))
      else findRegistry W cfg rest (evs @ [FsExists (path_join W (lockfileFolder cfg) filename)]))"

text \<open>
  \<^verbatim>\<open>Object.keys(allWorkspaces).filter(w => w !== currentWorkspace).map(w =>
  `${w}@${allWorkspaces[w].manifest.version}`)\<close>
\<close>

definition siblingPatterns :: "string \<Rightarrow> (string \<times> workspace) list \<Rightarrow> string list" where
  "siblingPatterns currentWorkspace allWorkspaces =
     map (\<lambda>w. w @ ''@'' @ version (manifest (the (map_of allWorkspaces w))))
       (filter (\<lambda>w. w \<noteq> currentWorkspace) (map fst allWorkspaces))"

text \<open>
  The part of \<^verbatim>\<open>setSiblingWorkspaces\<close> after a registry was found; an error of a
  collaborator propagates. The events are the reads that were started.
\<close>

definition readSiblings ::
  "world \<Rightarrow> config \<Rightarrow> string \<Rightarrow> string \<Rightarrow> event list \<Rightarrow> (error + string list) \<times> event list" where
  "readSiblings W cfg rootLoc workspaceLoc evs =
     (case readJson W rootLoc of Inl e \<Rightarrow> (Inl e, evs @ [ReadJson rootLoc]) | Inr rootJson \<Rightarrow>
      case normalizeManifest W rootJson (lockfileFolder cfg) True of
        Inl e \<Rightarrow> (Inl e, evs @ [ReadJson rootLoc]) | Inr rootManifest \<Rightarrow>
      case readJson W workspaceLoc of
        Inl e \<Rightarrow> (Inl e, evs @ [ReadJson rootLoc, ReadJson workspaceLoc]) | Inr workspaceJson \<Rightarrow>
      case normalizeManifest W workspaceJson (cwd cfg) False of
        Inl e \<Rightarrow> (Inl e, evs @ [ReadJson rootLoc, ReadJson workspaceLoc]) | Inr workspaceManifest \<Rightarrow>
      case resolveWorkspaces W (lockfileFolder cfg) rootManifest of
        Inl e \<Rightarrow> (Inl e, evs @ [ReadJson rootLoc, ReadJson workspaceLoc]) | Inr allWorkspaces \<Rightarrow>
        (Inr (siblingPatterns (name workspaceManifest) allWorkspaces),
         evs @ [ReadJson rootLoc, ReadJson workspaceLoc]))"

text \<open>
  When no registry has its manifest file at both places the function warns on the
  console and returns; nothing is assigned to \<^verbatim>\<open>this.siblingWorkspaces\<close>.
\<close>

definition setSiblingWorkspaces :: "world \<Rightarrow> Isolate \<Rightarrow> (error + unit) \<times> Isolate" where
  "setSiblingWorkspaces W st =
     (case findRegistry W (config st) (registryFilenames W) (events st) of
        (None, evs) \<Rightarrow> (Inr (), st\<lparr>events := evs @ [ConsoleWarn ''no sibling workspaces'']\<rparr>)
      | (Some (rootLoc, workspaceLoc), evs) \<Rightarrow>
          (case readSiblings W (config st) rootLoc workspaceLoc evs of
             (Inl e, evs') \<Rightarrow> (Inl e, st\<lparr>events := evs'\<rparr>)
           | (Inr ws, evs') \<Rightarrow> (Inr (), st\<lparr>siblingWorkspaces := Some ws, events := evs'\<rparr>)))"

text \<open>
  \<^verbatim>\<open>init\<close>: the root check, discovery, then the \<^verbatim>\<open>init\<close> of the base class
  \<^verbatim>\<open>Install\<close>, which is a parameter.
\<close>

definition init ::
  "world \<Rightarrow> (Isolate \<Rightarrow> (error + string list) \<times> Isolate) \<Rightarrow> Isolate \<Rightarrow> (error + string list) \<times> Isolate" where
  "init W Install_init st =
     (if truthy (workspaceRootFolder (config st)) \<and>
         Some (cwd (config st)) = workspaceRootFolder (config st)
      then (Inl (MessageError ''workspacesIsolateRootCheck''), st)
      else (case setSiblingWorkspaces W st of
              (Inl e, st') \<Rightarrow> (Inl e, st')
            | (Inr u, st') \<Rightarrow> Install_init st'))"

section \<open>A concrete project\<close>

text \<open>
  Stand-ins for the imported functions, used to run the hooks on concrete input.
  \<open>normalizePattern0\<close> takes the name up to the first \<^verbatim>\<open>@\<close> after an optional
  scope and the range after it (\<^verbatim>\<open>latest\<close> without one, \<^verbatim>\<open>*\<close> for an empty
  one). \<open>valid0\<close> accepts three dot-separated numbers. \<open>satisfies0\<close> accepts a valid
  version for the range that is the version itself, the version after \<^verbatim>\<open>^\<close> or
  \<^verbatim>\<open>~\<close>, or \<^verbatim>\<open>*\<close>. \<open>exotic0\<close> accepts a string that starts with
  \<^verbatim>\<open>git+\<close> (a raw git URL, not a name followed by \<^verbatim>\<open>@\<close> and a URL). The
  table update is \<open>moveEntry\<close>. On the strings used below they answer as the real
  functions do.
\<close>

fun splitAt :: "string \<Rightarrow> string \<times> string option" where
  "splitAt [] = ([], None)"
| "splitAt (c # cs) =
     (if c = CHR ''@'' then ([], Some cs)
      else (c # fst (splitAt cs), snd (splitAt cs)))"

definition normalizePattern0 :: "string \<Rightarrow> normalized" where
  "normalizePattern0 p =
     (let scoped = (case p of [] \<Rightarrow> False | c # cs \<Rightarrow> c = CHR ''@'');
          parts = splitAt (if scoped then tl p else p);
          nm = (if scoped then CHR ''@'' # fst parts else fst parts)
      in case snd parts of
           None \<Rightarrow> \<lparr>np_name = nm, np_range = ''latest'', np_hasVersion = False\<rparr>
         | Some r \<Rightarrow>
             (if r = [] then \<lparr>np_name = nm, np_range = ''*'', np_hasVersion = False\<rparr>
              else \<lparr>np_name = nm, np_range = r, np_hasVersion = True\<rparr>))"

fun splitDots :: "string \<Rightarrow> string list" where
  "splitDots [] = [[]]"
| "splitDots (c # cs) =
     (if c = CHR ''.'' then [] # splitDots cs
      else (case splitDots cs of [] \<Rightarrow> [[c]] | w # ws \<Rightarrow> (c # w) # ws))"

definition isNumber :: "string \<Rightarrow> bool" where
  "isNumber s = (s \<noteq> [] \<and> list_all (\<lambda>c. c \<in> set ''0123456789'') s)"

definition valid0 :: "string \<Rightarrow> bool" where
  "valid0 s = (case splitDots s of [a, b, c] \<Rightarrow> isNumber a \<and> isNumber b \<and> isNumber c | _ \<Rightarrow> False)"

definition satisfies0 :: "string \<Rightarrow> string \<Rightarrow> bool" where
  "satisfies0 v r = (valid0 v \<and> (r = v \<or> r = ''^'' @ v \<or> r = ''~'' @ v \<or> r = ''*''))"

definition exotic0 :: "string \<Rightarrow> bool" where
  "exotic0 s = prefix ''git+'' s"

definition ext0 :: externals where
  "ext0 = \<lparr>normalizePattern = normalizePattern0, getExoticResolver = exotic0,
           semver_satisfies = satisfies0, semver_valid = valid0,
           replaceInTable = moveEntry\<rparr>"

text \<open>
  The project of the spec's scenario: a root at \<^verbatim>\<open>/repo\<close> with the workspaces
  \<^verbatim>\<open>a@1.0.0\<close>, \<^verbatim>\<open>b@2.0.0\<close> and \<^verbatim>\<open>c@3.0.0\<close>; the command runs in
  \<^verbatim>\<open>/repo/packages/b\<close>.
\<close>

definition pkg0 :: "string \<Rightarrow> string \<Rightarrow> Manifest" where
  "pkg0 n v = \<lparr>name = n, version = v,
               reference = Some \<lparr>registry = ''npm'', dependencies = None\<rparr>,
               buckets = Map.empty\<rparr>"

definition world0 :: world where
  "world0 = \<lparr>registryFilenames = [''package.json'', ''yarn.json''],
             path_join = (\<lambda>d f. d @ ''/'' @ f),
             fs_exists = (\<lambda>p. p = ''/repo/package.json'' \<or> p = ''/repo/packages/b/package.json''),
             readJson = (\<lambda>p. if p = ''/repo/package.json'' then Inr (pkg0 ''root'' ''0.0.0'')
                              else if p = ''/repo/packages/b/package.json'' then Inr (pkg0 ''b'' ''2.0.0'')
                              else Inl (CollaboratorError ''ENOENT'')),
             normalizeManifest = (\<lambda>m l isRoot. Inr m),
             resolveWorkspaces = (\<lambda>l m. Inr [(''a'', \<lparr>loc = ''/repo/packages/a'', manifest = pkg0 ''a'' ''1.0.0''\<rparr>),
                                              (''b'', \<lparr>loc = ''/repo/packages/b'', manifest = pkg0 ''b'' ''2.0.0''\<rparr>),
                                              (''c'', \<lparr>loc = ''/repo/packages/c'', manifest = pkg0 ''c'' ''3.0.0''\<rparr>)])\<rparr>"

text \<open>The same project without any manifest file on disk.\<close>

definition world_miss :: world where
  "world_miss = world0\<lparr>fs_exists := (\<lambda>p. False)\<rparr>"

definition config0 :: config where
  "config0 = \<lparr>cwd = ''/repo/packages/b'', lockfileFolder = ''/repo'',
              workspaceRootFolder = Some ''/repo'', save_prefix = ''^'', save_exact = False\<rparr>"

text \<open>
  The object as the constructor leaves it (\<open>fl\<close> are the command's flags), and as it is
  once the resolver has resolved the requests of \<open>b\<close> and of its siblings.
\<close>

definition isolate0 :: "flags \<Rightarrow> Isolate" where
  "isolate0 fl = \<lparr>flags = fl, config = config0, siblingWorkspaces = None,
                  resolver_patterns = Map.empty, heap = (\<lambda>a. pkg0 [] []),
                  replaced = [], rootPatternsToOrigin = [], flagToOrigin = None,
                  events = []\<rparr>"

definition resolved0 :: "flags \<Rightarrow> Isolate" where
  "resolved0 fl = (isolate0 fl)
     \<lparr>siblingWorkspaces := Some [''a@1.0.0'', ''c@3.0.0''],
      resolver_patterns := [''a@1.0.0'' \<mapsto> 1, ''b@2.0.0'' \<mapsto> 2, ''c@3.0.0'' \<mapsto> 3],
      heap := (\<lambda>a. if a = 1 then pkg0 ''a'' ''1.0.0'' else if a = 2 then pkg0 ''b'' ''2.0.0''
                    else if a = 3 then pkg0 ''c'' ''3.0.0'' else pkg0 [] [])\<rparr>"

definition defaultFlags :: flags where
  "defaultFlags = \<lparr>tilde = False, exact = False\<rparr>"

text \<open>The flags of a run with \<^verbatim>\<open>--tilde\<close>, and the object after its first canonicalization.\<close>

definition tildeFlags :: flags where
  "tildeFlags = \<lparr>tilde = True, exact = False\<rparr>"

definition canonicalizedTilde :: Isolate where
  "canonicalizedTilde = snd (projr (preparePatterns ext0 (resolved0 tildeFlags) []))"

text \<open>
  The result of folding in the concrete project, for a pattern list that holds one
  dependency of \<open>b\<close> itself and the two siblings.
\<close>

definition folded0 :: "string list \<times> Isolate" where
  "folded0 = projr (preparePatternsForLinking ext0 (resolved0 defaultFlags)
                      [''x@^1.0.0'', ''a@1.0.0'', ''c@3.0.0''] (pkg0 ''b'' ''2.0.0'') False)"

section \<open>Observations on a manifest\<close>

text \<open>
  The version recorded for package \<open>n\<close> in the bucket \<open>t\<close> of a manifest
  (\<^verbatim>\<open>manifest[t][n]\<close>, absent when the bucket is), and the dependency patterns of its
  reference (empty while there is no list).
\<close>

definition entryOf :: "Manifest \<Rightarrow> string \<Rightarrow> string \<Rightarrow> string option" where
  "entryOf m t n = (case buckets m t of None \<Rightarrow> None | Some b \<Rightarrow> b n)"

definition backlinks :: "Manifest \<Rightarrow> string list" where
  "backlinks m =
     (case reference m of
        None \<Rightarrow> []
      | Some r \<Rightarrow> (case dependencies r of None \<Rightarrow> [] | Some ds \<Rightarrow> ds))"

text \<open>
  The test \<^verbatim>\<open>manifest[dependencyType][pkgName] === version\<close> for the sibling pattern
  \<open>p\<close> and the manifest at address \<open>a\<close>, with the arguments that
  \<^verbatim>\<open>_iterateAddedPackages\<close> computes for \<open>p\<close>.
\<close>

definition alreadyRecorded :: "externals \<Rightarrow> Isolate \<Rightarrow> nat \<Rightarrow> string \<Rightarrow> bool" where
  "alreadyRecorded X st a p =
     (case getResolvedPattern st p of
        None \<Rightarrow> False
      | Some pkg \<Rightarrow>
          entryOf (heap st a) (targetOf st (map fst (rootPatternsToOrigin st)) pkg) (name pkg) =
            Some (getPatternVersion X (flags st) (config st) p pkg))"

text \<open>
  What folding leaves as it is: every field but the heap, of every manifest its name,
  its version and whether it has a reference, and of the target every bucket entry.
\<close>

definition sameFrame :: "nat \<Rightarrow> Isolate \<Rightarrow> Isolate \<Rightarrow> bool" where
  "sameFrame a st st' =
     (flags st' = flags st \<and> config st' = config st \<and>
      siblingWorkspaces st' = siblingWorkspaces st \<and>
      resolver_patterns st' = resolver_patterns st \<and>
      rootPatternsToOrigin st' = rootPatternsToOrigin st \<and>
      flagToOrigin st' = flagToOrigin st \<and>
      (\<forall>b. name (heap st' b) = name (heap st b) \<and> version (heap st' b) = version (heap st b) \<and>
           (reference (heap st' b) = None) = (reference (heap st b) = None)) \<and>
      (\<forall>t n. entryOf (heap st' a) t n = entryOf (heap st a) t n))"

section \<open>The integrity bailout\<close>

text \<open>
  \<^verbatim>\<open>bailout\<close> takes the pattern list and an optional workspace layout, which it
  never reads; its body is the single statement \<^verbatim>\<open>return false\<close>.
\<close>

definition bailout :: "string list \<Rightarrow> 'layout option \<Rightarrow> bool" where
  "bailout patterns workspaceLayout = False"

section \<open>Theorems\<close>

text \<open>
  C10. The lockfile-integrity bailout is switched off for isolation: for every pattern list
  and every workspace layout (present or absent) \<open>bailout\<close> answers false.
\<close>

theorem bailout_always_false: "bailout patterns workspaceLayout = False"
  by (simp add: bailout_def)

subsection \<open>Request injection\<close>

lemma foldl_push: "foldl (\<lambda>acc w. acc @ [f w]) xs ws = xs @ map f ws"
  by (induction ws arbitrary: xs) simp_all

text \<open>
  C7. For every base list of requests and every sibling list, \<open>prepareRequests\<close> answers
  the base requests, unchanged and in their order, followed by one request per sibling
  pattern in the order of the sibling list, each with registry \<^verbatim>\<open>npm\<close> and
  \<open>optional = False\<close>. The answer is a function of the two lists, so repeated runs on
  the same input agree.
\<close>

theorem prepareRequests_appends_siblings:
  assumes "siblingWorkspaces st = Some ws"
  shows "prepareRequests st requests =
           Inr (requests @ map (\<lambda>w. \<lparr>pattern = w, req_registry = ''npm'', optional = False\<rparr>) ws)"
  using assms by (simp add: prepareRequests_def foldl_push siblingRequest_def)

theorem prepareRequests_appends_siblings_witness:
  "siblingWorkspaces (resolved0 defaultFlags) = Some [''a@1.0.0'', ''c@3.0.0''] \<and>
   prepareRequests (resolved0 defaultFlags) [\<lparr>pattern = ''x@^1.0.0'', req_registry = ''npm'', optional = True\<rparr>] =
     Inr [\<lparr>pattern = ''x@^1.0.0'', req_registry = ''npm'', optional = True\<rparr>,
          \<lparr>pattern = ''a@1.0.0'', req_registry = ''npm'', optional = False\<rparr>,
          \<lparr>pattern = ''c@3.0.0'', req_registry = ''npm'', optional = False\<rparr>]"
proof -
  have s: "siblingWorkspaces (resolved0 defaultFlags) = Some [''a@1.0.0'', ''c@3.0.0'']"
    by (simp add: resolved0_def)
  show ?thesis
    using s prepareRequests_appends_siblings [OF s] by simp
qed

subsection \<open>The root check of init\<close>

text \<open>
  C5. When the working directory is the workspace root, \<open>init\<close> answers the
  MessageError of \<^verbatim>\<open>workspacesIsolateRootCheck\<close> and the state it was given: no
  event (file-system probe, read or warning) was added and no field was assigned, whatever
  the file system holds and whatever the base class would do.
\<close>

theorem init_root_fails_fast:
  assumes "workspaceRootFolder (config st) = Some root" and "root \<noteq> []"
    and "cwd (config st) = root"
  shows "init W Install_init st = (Inl (MessageError ''workspacesIsolateRootCheck''), st)"
  using assms by (simp add: init_def)

theorem init_root_fails_fast_witness:
  "init world0 (\<lambda>s. (Inr [], s)) ((isolate0 defaultFlags)\<lparr>config := config0\<lparr>cwd := ''/repo''\<rparr>\<rparr>) =
     (Inl (MessageError ''workspacesIsolateRootCheck''),
      (isolate0 defaultFlags)\<lparr>config := config0\<lparr>cwd := ''/repo''\<rparr>\<rparr>)"
  by (rule init_root_fails_fast [where root = "''/repo''"]) (simp_all add: config0_def)

subsection \<open>The two cases in which folding is skipped\<close>

text \<open>
  C8. \<open>preparePatternsForLinking\<close> answers its pattern list unchanged in two cases. With
  \<open>cwdIsRoot\<close> it answers the list and the very state it was given. Without it, when the
  resolver has no package for the target's \<^verbatim>\<open>name@version\<close>, it answers the list
  and a state that differs only by the \<^verbatim>\<open>unknownPackage\<close> warning: resolver, heap
  (hence the target manifest) and sibling list are untouched.
\<close>

theorem preparePatternsForLinking_noop_cases:
  "preparePatternsForLinking X st patterns cwdManifest True = Inr (patterns, st) \<and>
   (resolver_patterns st (name cwdManifest @ ''@'' @ version cwdManifest) = None \<longrightarrow>
    preparePatternsForLinking X st patterns cwdManifest False =
      Inr (patterns,
           st\<lparr>events := events st @
              [ReporterWarn ''unknownPackage'' (name cwdManifest @ ''@'' @ version cwdManifest)]\<rparr>))"
  by (simp add: preparePatternsForLinking_def getStrictResolvedPattern_def)

theorem preparePatternsForLinking_noop_cases_witness:
  "preparePatternsForLinking ext0 (resolved0 defaultFlags) [''a@1.0.0'', ''c@3.0.0''] (pkg0 ''b'' ''9.9.9'') True =
     Inr ([''a@1.0.0'', ''c@3.0.0''], resolved0 defaultFlags) \<and>
   resolver_patterns (resolved0 defaultFlags) (name (pkg0 ''b'' ''9.9.9'') @ ''@'' @ version (pkg0 ''b'' ''9.9.9'')) = None \<and>
   preparePatternsForLinking ext0 (resolved0 defaultFlags) [''a@1.0.0'', ''c@3.0.0''] (pkg0 ''b'' ''9.9.9'') False =
     Inr ([''a@1.0.0'', ''c@3.0.0''],
          (resolved0 defaultFlags)\<lparr>events := events (resolved0 defaultFlags) @ [ReporterWarn ''unknownPackage'' ''b@9.9.9'']\<rparr>)"
proof -
  have h: "resolver_patterns (resolved0 defaultFlags) (name (pkg0 ''b'' ''9.9.9'') @ ''@'' @ version (pkg0 ''b'' ''9.9.9'')) = None"
    by (simp add: resolved0_def pkg0_def)
  show ?thesis
    using h preparePatternsForLinking_noop_cases [of ext0 "resolved0 defaultFlags" "[''a@1.0.0'', ''c@3.0.0'']" "pkg0 ''b'' ''9.9.9''"]
    by (simp add: pkg0_def)
qed

subsection \<open>Discovery without a common manifest file\<close>

text \<open>
  C6. In the concrete project without manifest files, discovery returns normally and
  warns, but leaves the sibling field unassigned; \<open>prepareRequests\<close> and
  \<open>preparePatterns\<close> then fail with a TypeError instead of treating the sibling list as
  empty.
\<close>

theorem discovery_miss_breaks_hooks:
  "fst (setSiblingWorkspaces world_miss (isolate0 defaultFlags)) = Inr () \<and>
   siblingWorkspaces (snd (setSiblingWorkspaces world_miss (isolate0 defaultFlags))) = None \<and>
   events (snd (setSiblingWorkspaces world_miss (isolate0 defaultFlags))) =
     [FsExists ''/repo/package.json'', FsExists ''/repo/yarn.json'', ConsoleWarn ''no sibling workspaces''] \<and>
   prepareRequests (snd (setSiblingWorkspaces world_miss (isolate0 defaultFlags))) [] = Inl TypeError \<and>
   preparePatterns ext0 (snd (setSiblingWorkspaces world_miss (isolate0 defaultFlags))) [] = Inl TypeError"
  by (simp add: setSiblingWorkspaces_def world_miss_def world0_def isolate0_def config0_def
      prepareRequests_def preparePatterns_def preparePatterns_run_def)

subsection \<open>Sibling discovery\<close>

lemma siblingPatterns_render:
  assumes "distinct (map fst al)"
  shows "siblingPatterns cur al =
           map (\<lambda>(n, w). n @ ''@'' @ version (manifest w)) (filter (\<lambda>(n, w). n \<noteq> cur) al)"
proof -
  have keys: "filter (\<lambda>w. w \<noteq> cur) (map fst al) = map fst (filter (\<lambda>(n, w). n \<noteq> cur) al)"
    by (simp add: filter_map comp_def case_prod_unfold)
  have look: "map_of al n = Some w" if "(n, w) \<in> set al" for n w
    using that assms by simp
  show ?thesis
    unfolding siblingPatterns_def keys map_map
    by (rule map_cong) (auto simp: look)
qed

lemma length_filter_other_keys:
  assumes "distinct (map fst al)" and "k \<in> fst ` set al"
  shows "length (filter (\<lambda>x. fst x \<noteq> k) al) = length al - 1"
  using assms
proof (induction al)
  case Nil
  then show ?case by simp
next
  case (Cons x xs)
  show ?case
  proof (cases "fst x = k")
    case True
    then have "k \<notin> fst ` set xs" using Cons.prems(1) by auto
    then have "filter (\<lambda>x. fst x \<noteq> k) xs = xs" by (force simp: filter_id_conv)
    with True show ?thesis by simp
  next
    case False
    then have "k \<in> fst ` set xs" using Cons.prems(2) by auto
    then have "xs \<noteq> []" by auto
    with False Cons \<open>k \<in> fst ` set xs\<close> show ?thesis by auto
  qed
qed

text \<open>
  C3. Whenever a registry was found, both manifests were read and normalised and the
  workspaces were resolved (an object, so its keys are distinct), discovery succeeds and
  assigns exactly the workspaces other than the current one, in key order, each rendered
  as \<^verbatim>\<open>name@version\<close> with the version of that workspace's own manifest; when the
  current workspace is a member, the list has one entry less than the workspace set.
\<close>

theorem setSiblingWorkspaces_all_other_workspaces:
  assumes "findRegistry W (config st) (registryFilenames W) (events st) = (Some (rootLoc, workspaceLoc), evs)"
    and "readJson W rootLoc = Inr rootJson"
    and "normalizeManifest W rootJson (lockfileFolder (config st)) True = Inr rootManifest"
    and "readJson W workspaceLoc = Inr workspaceJson"
    and "normalizeManifest W workspaceJson (cwd (config st)) False = Inr workspaceManifest"
    and "resolveWorkspaces W (lockfileFolder (config st)) rootManifest = Inr allWorkspaces"
    and "distinct (map fst allWorkspaces)"
  shows "fst (setSiblingWorkspaces W st) = Inr () \<and>
         siblingWorkspaces (snd (setSiblingWorkspaces W st)) =
           Some (map (\<lambda>(n, w). n @ ''@'' @ version (manifest w))
                   (filter (\<lambda>(n, w). n \<noteq> name workspaceManifest) allWorkspaces)) \<and>
         (name workspaceManifest \<in> fst ` set allWorkspaces \<longrightarrow>
            length (the (siblingWorkspaces (snd (setSiblingWorkspaces W st)))) = length allWorkspaces - 1)"
proof -
  have sib: "siblingWorkspaces (snd (setSiblingWorkspaces W st)) =
               Some (siblingPatterns (name workspaceManifest) allWorkspaces)"
    and ok: "fst (setSiblingWorkspaces W st) = Inr ()"
    using assms(1-6) by (simp_all add: setSiblingWorkspaces_def readSiblings_def)
  have len: "name workspaceManifest \<in> fst ` set allWorkspaces \<Longrightarrow>
      length (filter (\<lambda>(n, w). n \<noteq> name workspaceManifest) allWorkspaces) = length allWorkspaces - 1"
    using length_filter_other_keys [OF assms(7)] by (simp add: case_prod_unfold)
  show ?thesis
    using ok sib assms(7) len by (simp add: siblingPatterns_render)
qed

theorem setSiblingWorkspaces_all_other_workspaces_witness:
  "findRegistry world0 (config (isolate0 defaultFlags)) (registryFilenames world0) (events (isolate0 defaultFlags)) =
     (Some (''/repo/package.json'', ''/repo/packages/b/package.json''),
      [FsExists ''/repo/package.json'', FsExists ''/repo/packages/b/package.json'']) \<and>
   distinct (map fst [(''a'', \<lparr>loc = ''/repo/packages/a'', manifest = pkg0 ''a'' ''1.0.0''\<rparr>),
                      (''b'', \<lparr>loc = ''/repo/packages/b'', manifest = pkg0 ''b'' ''2.0.0''\<rparr>),
                      (''c'', \<lparr>loc = ''/repo/packages/c'', manifest = pkg0 ''c'' ''3.0.0''\<rparr>)]) \<and>
   fst (setSiblingWorkspaces world0 (isolate0 defaultFlags)) = Inr () \<and>
   siblingWorkspaces (snd (setSiblingWorkspaces world0 (isolate0 defaultFlags))) = Some [''a@1.0.0'', ''c@3.0.0'']"
proof -
  let ?ws = "[(''a'', \<lparr>loc = ''/repo/packages/a'', manifest = pkg0 ''a'' ''1.0.0''\<rparr>),
              (''b'', \<lparr>loc = ''/repo/packages/b'', manifest = pkg0 ''b'' ''2.0.0''\<rparr>),
              (''c'', \<lparr>loc = ''/repo/packages/c'', manifest = pkg0 ''c'' ''3.0.0''\<rparr>)]"
  have f: "findRegistry world0 (config (isolate0 defaultFlags)) (registryFilenames world0) (events (isolate0 defaultFlags)) =
     (Some (''/repo/package.json'', ''/repo/packages/b/package.json''),
      [FsExists ''/repo/package.json'', FsExists ''/repo/packages/b/package.json''])"
    by (simp add: world0_def isolate0_def config0_def)
  have r1: "readJson world0 ''/repo/package.json'' = Inr (pkg0 ''root'' ''0.0.0'')"
    by (simp add: world0_def)
  have n1: "normalizeManifest world0 (pkg0 ''root'' ''0.0.0'') (lockfileFolder (config (isolate0 defaultFlags))) True = Inr (pkg0 ''root'' ''0.0.0'')"
    by (simp add: world0_def)
  have r2: "readJson world0 ''/repo/packages/b/package.json'' = Inr (pkg0 ''b'' ''2.0.0'')"
    by (simp add: world0_def)
  have n2: "normalizeManifest world0 (pkg0 ''b'' ''2.0.0'') (cwd (config (isolate0 defaultFlags))) False = Inr (pkg0 ''b'' ''2.0.0'')"
    by (simp add: world0_def)
  have w: "resolveWorkspaces world0 (lockfileFolder (config (isolate0 defaultFlags))) (pkg0 ''root'' ''0.0.0'') = Inr ?ws"
    by (simp add: world0_def)
  have d: "distinct (map fst ?ws)" by simp
  show ?thesis
    using f d setSiblingWorkspaces_all_other_workspaces [OF f r1 n1 r2 n2 w d]
    by (simp add: pkg0_def)
qed

subsection \<open>The version policy\<close>

text \<open>
  C4 (amended). \<open>getPatternVersion\<close> answers as follows. With tilde and exact off,
  save-exact unset and the prefix \<^verbatim>\<open>^\<close>, a pattern that is not exotic and carries
  no range that is kept gets \<^verbatim>\<open>^\<close> followed by the resolved version. With exact
  on and tilde off, a pattern that is not exotic and whose kept range, if it has one, is
  a concrete version gets the resolved version. A pattern that the exotic resolver
  accepts as a whole (non-empty and not a valid semver version) is answered unchanged.
  When a pattern that is not exotic embeds a range that the resolved version satisfies,
  or that is exotic, a range that is not a concrete version is answered verbatim; for a
  concrete version the answer is the resolved version, with no prefix if tilde is off and
  with the prefix \<^verbatim>\<open>~\<close> if tilde is on.
\<close>

theorem getPatternVersion_policy:
  "(\<not> getExoticResolver X p \<and> \<not> rangeKept X p pkg \<and> \<not> tilde fl \<and> \<not> exact fl \<and>
      \<not> save_exact cfg \<and> save_prefix cfg = ''^'' \<longrightarrow>
      getPatternVersion X fl cfg p pkg = ''^'' @ version pkg) \<and>
   (\<not> getExoticResolver X p \<and> \<not> tilde fl \<and> exact fl \<and>
      (\<not> rangeKept X p pkg \<or> semver_valid X (np_range (normalizePattern X p))) \<longrightarrow>
      getPatternVersion X fl cfg p pkg = version pkg) \<and>
   (getExoticResolver X p \<and> p \<noteq> [] \<and> \<not> semver_valid X p \<longrightarrow>
      getPatternVersion X fl cfg p pkg = p) \<and>
   (\<not> getExoticResolver X p \<and> rangeKept X p pkg \<and>
      \<not> semver_valid X (np_range (normalizePattern X p)) \<longrightarrow>
      getPatternVersion X fl cfg p pkg = np_range (normalizePattern X p)) \<and>
   (\<not> getExoticResolver X p \<and> rangeKept X p pkg \<and>
      semver_valid X (np_range (normalizePattern X p)) \<longrightarrow>
      getPatternVersion X fl cfg p pkg = (if tilde fl then ''~'' else []) @ version pkg)"
  by (auto simp: getPatternVersion_def keptVersion_def rangeKept_def)

lemmas policy_defs =
  ext0_def rangeKept_def normalizePattern0_def satisfies0_def valid0_def isNumber_def
  exotic0_def pkg0_def

theorem getPatternVersion_policy_witness:
  "\<not> getExoticResolver ext0 ''sibling'' \<and> \<not> rangeKept ext0 ''sibling'' (pkg0 ''sibling'' ''2.3.1'') \<and>
   getPatternVersion ext0 \<lparr>tilde = False, exact = False\<rparr> config0 ''sibling'' (pkg0 ''sibling'' ''2.3.1'') = ''^2.3.1'' \<and>
   getPatternVersion ext0 \<lparr>tilde = False, exact = True\<rparr> config0 ''sibling'' (pkg0 ''sibling'' ''2.3.1'') = ''2.3.1'' \<and>
   getPatternVersion ext0 \<lparr>tilde = False, exact = True\<rparr> config0 ''sibling@2.3.1'' (pkg0 ''sibling'' ''2.3.1'') = ''2.3.1'' \<and>
   getExoticResolver ext0 ''git+https://host/repo.git'' \<and>
   \<not> semver_valid ext0 ''git+https://host/repo.git'' \<and>
   getPatternVersion ext0 \<lparr>tilde = False, exact = False\<rparr> config0 ''git+https://host/repo.git'' (pkg0 ''sibling'' ''2.3.1'') =
     ''git+https://host/repo.git'' \<and>
   \<not> getExoticResolver ext0 ''sibling@^2.3.1'' \<and> rangeKept ext0 ''sibling@^2.3.1'' (pkg0 ''sibling'' ''2.3.1'') \<and>
   \<not> semver_valid ext0 (np_range (normalizePattern ext0 ''sibling@^2.3.1'')) \<and>
   getPatternVersion ext0 \<lparr>tilde = False, exact = False\<rparr> config0 ''sibling@^2.3.1'' (pkg0 ''sibling'' ''2.3.1'') = ''^2.3.1'' \<and>
   \<not> getExoticResolver ext0 ''sibling@2.3.1'' \<and> rangeKept ext0 ''sibling@2.3.1'' (pkg0 ''sibling'' ''2.3.1'') \<and>
   semver_valid ext0 (np_range (normalizePattern ext0 ''sibling@2.3.1'')) \<and>
   getPatternVersion ext0 \<lparr>tilde = False, exact = False\<rparr> config0 ''sibling@2.3.1'' (pkg0 ''sibling'' ''2.3.1'') = ''2.3.1''"
proof -
  let ?pkg = "pkg0 ''sibling'' ''2.3.1''"
  have bare: "\<not> getExoticResolver ext0 ''sibling''" "\<not> rangeKept ext0 ''sibling'' ?pkg"
    by (simp_all add: policy_defs)
  have exo: "getExoticResolver ext0 ''git+https://host/repo.git''"
    "\<not> semver_valid ext0 ''git+https://host/repo.git''"
    by (simp_all add: policy_defs)
  have caret: "\<not> getExoticResolver ext0 ''sibling@^2.3.1''" "rangeKept ext0 ''sibling@^2.3.1'' ?pkg"
    "\<not> semver_valid ext0 (np_range (normalizePattern ext0 ''sibling@^2.3.1''))"
    by (simp_all add: policy_defs)
  have conc: "\<not> getExoticResolver ext0 ''sibling@2.3.1''" "rangeKept ext0 ''sibling@2.3.1'' ?pkg"
    "semver_valid ext0 (np_range (normalizePattern ext0 ''sibling@2.3.1''))"
    by (simp_all add: policy_defs)
  have v: "version ?pkg = ''2.3.1''" by (simp add: pkg0_def)
  have r1: "np_range (normalizePattern ext0 ''sibling@^2.3.1'') = ''^2.3.1''"
    by (simp add: ext0_def normalizePattern0_def)
  show ?thesis
    using bare exo caret conc
      getPatternVersion_policy [of ext0 "''sibling''" ?pkg "\<lparr>tilde = False, exact = False\<rparr>" config0]
      getPatternVersion_policy [of ext0 "''sibling''" ?pkg "\<lparr>tilde = False, exact = True\<rparr>" config0]
      getPatternVersion_policy [of ext0 "''sibling@2.3.1''" ?pkg "\<lparr>tilde = False, exact = True\<rparr>" config0]
      getPatternVersion_policy [of ext0 "''git+https://host/repo.git''" ?pkg "\<lparr>tilde = False, exact = False\<rparr>" config0]
      getPatternVersion_policy [of ext0 "''sibling@^2.3.1''" ?pkg "\<lparr>tilde = False, exact = False\<rparr>" config0]
      getPatternVersion_policy [of ext0 "''sibling@2.3.1''" ?pkg "\<lparr>tilde = False, exact = False\<rparr>" config0]
    by (simp add: v r1 config0_def)
qed

text \<open>
  Where the claim as written fails, the resolved version being \<^verbatim>\<open>2.3.1\<close> each time.
  With the default flags the sibling pattern \<^verbatim>\<open>sibling@2.3.1\<close> gets
  \<^verbatim>\<open>2.3.1\<close>, not \<^verbatim>\<open>^2.3.1\<close>. With exact on, \<^verbatim>\<open>sibling@^2.3.1\<close> gets its
  range \<^verbatim>\<open>^2.3.1\<close>, not \<^verbatim>\<open>2.3.1\<close>. The pattern
  \<^verbatim>\<open>sibling@git+https://host/repo.git\<close> is a name and a range, not an exotic
  pattern, and gets its range, so it is not answered unchanged. With tilde on,
  \<^verbatim>\<open>sibling@2.3.1\<close> embeds a concrete version that the resolved version satisfies
  and gets \<^verbatim>\<open>~2.3.1\<close>: a prefix is applied.
\<close>

theorem getPatternVersion_policy_counterexample:
  "getPatternVersion ext0 \<lparr>tilde = False, exact = False\<rparr> config0 ''sibling@2.3.1'' (pkg0 ''sibling'' ''2.3.1'') = ''2.3.1'' \<and>
   getPatternVersion ext0 \<lparr>tilde = False, exact = True\<rparr> config0 ''sibling@^2.3.1'' (pkg0 ''sibling'' ''2.3.1'') = ''^2.3.1'' \<and>
   \<not> getExoticResolver ext0 ''sibling@git+https://host/repo.git'' \<and>
   getPatternVersion ext0 \<lparr>tilde = False, exact = False\<rparr> config0 ''sibling@git+https://host/repo.git'' (pkg0 ''sibling'' ''2.3.1'') =
     ''git+https://host/repo.git'' \<and>
   rangeKept ext0 ''sibling@2.3.1'' (pkg0 ''sibling'' ''2.3.1'') \<and>
   np_range (normalizePattern ext0 ''sibling@2.3.1'') = ''2.3.1'' \<and>
   semver_valid ext0 ''2.3.1'' \<and>
   getPatternVersion ext0 \<lparr>tilde = True, exact = False\<rparr> config0 ''sibling@2.3.1'' (pkg0 ''sibling'' ''2.3.1'') = ''~2.3.1''"
  by (simp add: getPatternVersion_def keptVersion_def policy_defs config0_def)

subsection \<open>Canonicalization and aliasing\<close>

lemmas run_defs =
  preparePatterns_def preparePatterns_run_def resolved0_def isolate0_def getResolvedPattern_def
  newPatternOf_def getPatternVersion_def keptVersion_def rangeKept_def ext0_def
  normalizePattern0_def satisfies0_def valid0_def isNumber_def exotic0_def config0_def pkg0_def
  replacePattern_def moveEntry_def defaultFlags_def tildeFlags_def

lemma loop_fixed:
  assumes "\<forall>p\<in>set ws. \<exists>pkg. getResolvedPattern st p = Some pkg \<and> newPatternOf X st p pkg = p"
  shows "preparePatterns_loop X ws acc st = (Inr (acc @ ws), st)"
  using assms by (induction ws arbitrary: acc) auto

lemma loop_settled:
  assumes "\<forall>p\<in>set ws. settled X st p"
  shows "snd (preparePatterns_loop X ws acc st) = st"
  using assms by (induction ws arbitrary: acc) (auto simp: settled_def split: option.splits)

lemma replaced_step:
  "replaced (if np = p then st else replacePattern X st p np) =
     replaced st @ (if np = p then [] else [(p, np)])"
  by (simp add: replacePattern_def)

lemma loop_log:
  "\<exists>log. replaced (snd (preparePatterns_loop X ws acc st)) = replaced st @ log \<and>
         (\<forall>c\<in>set log. fst c \<in> set ws \<and> fst c \<noteq> snd c)"
proof (induction ws arbitrary: acc st)
  case Nil
  then show ?case by simp
next
  case (Cons p ws)
  show ?case
  proof (cases "getResolvedPattern st p")
    case None
    then show ?thesis by simp
  next
    case (Some pkg)
    let ?np = "newPatternOf X st p pkg"
    let ?st1 = "if ?np = p then st else replacePattern X st p ?np"
    from Cons.IH [of "acc @ [?np]" ?st1] obtain log where
      log: "replaced (snd (preparePatterns_loop X ws (acc @ [?np]) ?st1)) = replaced ?st1 @ log"
        "\<forall>c\<in>set log. fst c \<in> set ws \<and> fst c \<noteq> snd c"
      by blast
    let ?log = "(if ?np = p then [] else [(p, ?np)]) @ log"
    have "replaced (snd (preparePatterns_loop X (p # ws) acc st)) = replaced st @ ?log"
      using Some log(1) by (simp only: preparePatterns_loop.simps option.case replaced_step append_assoc)
    moreover have "\<forall>c\<in>set ?log. fst c \<in> set (p # ws) \<and> fst c \<noteq> snd c"
      using log(2) by auto
    ultimately show ?thesis by blast
  qed
qed

lemma loop_frame:
  "heap (snd (preparePatterns_loop X ws acc st)) = heap st \<and>
   flags (snd (preparePatterns_loop X ws acc st)) = flags st \<and>
   config (snd (preparePatterns_loop X ws acc st)) = config st \<and>
   siblingWorkspaces (snd (preparePatterns_loop X ws acc st)) = siblingWorkspaces st"
  by (induction ws arbitrary: acc st) (auto simp: replacePattern_def split: option.splits)

lemma newPatternOf_frame:
  "flags st' = flags st \<Longrightarrow> config st' = config st \<Longrightarrow>
   newPatternOf X st' p pkg = newPatternOf X st p pkg"
  by (simp add: newPatternOf_def)

lemma loop_settles:
  assumes "replaceInTable X = moveEntry" and "distinct rest" and "set rest \<subseteq> S"
    and "\<forall>p\<in>set rest. \<forall>pkg. getResolvedPattern st p = Some pkg \<longrightarrow>
           newPatternOf X st p pkg = p \<or> newPatternOf X st p pkg \<notin> S"
    and "preparePatterns_loop X rest acc st = (Inr ps1, st1)"
  shows "(\<forall>p\<in>set rest. settled X st1 p) \<and>
         (\<forall>k\<in>S. k \<notin> set rest \<longrightarrow> resolver_patterns st1 k = resolver_patterns st k)"
  using assms(2-5)
proof (induction rest arbitrary: acc st)
  case Nil
  then show ?case by simp
next
  case (Cons p rest)
  from Cons.prems(4) obtain pkg where pkg: "getResolvedPattern st p = Some pkg"
    by (auto split: option.splits)
  then obtain a where a: "resolver_patterns st p = Some a" "pkg = heap st a"
    by (auto simp: getResolvedPattern_def)
  let ?np = "newPatternOf X st p pkg"
  let ?st' = "if ?np = p then st else replacePattern X st p ?np"
  have run': "preparePatterns_loop X rest (acc @ [?np]) ?st' = (Inr ps1, st1)"
    using Cons.prems(4) pkg by simp
  have fr': "heap ?st' = heap st" "flags ?st' = flags st" "config ?st' = config st"
    by (simp_all add: replacePattern_def)
  have pS: "p \<in> S" and restS: "set rest \<subseteq> S" and pn: "p \<notin> set rest" and d: "distinct rest"
    using Cons.prems(1,2) by simp_all
  have np: "?np = p \<or> ?np \<notin> S"
    using Cons.prems(3) pkg by simp
  have tab: "resolver_patterns ?st' k = resolver_patterns st k" if "k \<in> S" "k \<noteq> p" for k
    using that np assms(1) by (auto simp: replacePattern_def moveEntry_def)
  have look: "getResolvedPattern ?st' q = getResolvedPattern st q" if "q \<in> set rest" for q
  proof -
    from that have "q \<in> S" "q \<noteq> p" using restS pn by auto
    then have "resolver_patterns ?st' q = resolver_patterns st q" by (rule tab)
    then show ?thesis by (simp add: getResolvedPattern_def fr'(1))
  qed
  have H': "\<forall>q\<in>set rest. \<forall>pk. getResolvedPattern ?st' q = Some pk \<longrightarrow>
           newPatternOf X ?st' q pk = q \<or> newPatternOf X ?st' q pk \<notin> S"
  proof (intro ballI allI impI)
    fix q pk
    assume q: "q \<in> set rest" and "getResolvedPattern ?st' q = Some pk"
    then have "getResolvedPattern st q = Some pk" by (simp only: look)
    with Cons.prems(3) q have "newPatternOf X st q pk = q \<or> newPatternOf X st q pk \<notin> S"
      by simp
    then show "newPatternOf X ?st' q pk = q \<or> newPatternOf X ?st' q pk \<notin> S"
      by (simp only: newPatternOf_frame [OF fr'(2,3)])
  qed
  from Cons.IH [OF d restS H' run'] have
    ih1: "\<forall>q\<in>set rest. settled X st1 q"
    and ih2: "\<forall>k\<in>S. k \<notin> set rest \<longrightarrow> resolver_patterns st1 k = resolver_patterns ?st' k"
    by simp_all
  have st1: "st1 = snd (preparePatterns_loop X rest (acc @ [?np]) ?st')"
    using run' by simp
  have fr1: "heap st1 = heap st" "flags st1 = flags st" "config st1 = config st"
    unfolding st1 using loop_frame [of X rest "acc @ [?np]" ?st'] fr' by simp_all
  have tp: "resolver_patterns st1 p = resolver_patterns ?st' p"
    using ih2 pS pn by simp
  have "settled X st1 p"
  proof (cases "?np = p")
    case True
    then have "resolver_patterns st1 p = Some a" using tp a(1) by simp
    then have "getResolvedPattern st1 p = Some pkg"
      by (simp add: getResolvedPattern_def fr1(1) a(2))
    moreover have "newPatternOf X st1 p pkg = p"
      using True by (simp only: newPatternOf_frame [OF fr1(2,3)])
    ultimately show ?thesis by (simp add: settled_def)
  next
    case False
    then have "resolver_patterns st1 p = None"
      using tp assms(1) by (simp add: replacePattern_def moveEntry_def)
    then show ?thesis by (simp add: settled_def getResolvedPattern_def)
  qed
  moreover have "\<forall>k\<in>S. k \<notin> set (p # rest) \<longrightarrow> resolver_patterns st1 k = resolver_patterns st k"
  proof (intro ballI impI)
    fix k assume k: "k \<in> S" "k \<notin> set (p # rest)"
    then have "resolver_patterns st1 k = resolver_patterns ?st' k" using ih2 by simp
    also have "\<dots> = resolver_patterns st k" using k by (intro tab) simp_all
    finally show "resolver_patterns st1 k = resolver_patterns st k" .
  qed
  ultimately show ?case using ih1 by simp
qed



text \<open>
  C9. Let \<open>ws\<close> be the sibling list. A call of \<open>preparePatterns\<close>, whether it returns or
  throws, adds to the log of \<open>replacePattern\<close> calls only calls for siblings whose
  recomputed canonical pattern differs from the sibling pattern. If every sibling is
  settled (the resolver no longer has it, or its recomputed canonical pattern is the
  pattern itself), a call leaves the whole state as it is: no aliasing. If every sibling
  resolves and is canonical, the call returns the patterns followed by the siblings.
  And a second call after a first one that returned finds every sibling settled and
  aliases nothing, for a resolver whose \<open>replacePattern\<close> adds the new key and removes
  the old one, for distinct siblings, none of which has another sibling's pattern as its
  canonical pattern.
\<close>

theorem preparePatterns_second_call_no_aliasing:
  assumes "siblingWorkspaces st = Some ws"
  shows "(\<exists>log. replaced (snd (preparePatterns_run X st patterns)) = replaced st @ log \<and>
                (\<forall>c\<in>set log. fst c \<in> set ws \<and> fst c \<noteq> snd c)) \<and>
         ((\<forall>p\<in>set ws. settled X st p) \<longrightarrow> snd (preparePatterns_run X st patterns) = st) \<and>
         ((\<forall>p\<in>set ws. \<exists>pkg. getResolvedPattern st p = Some pkg \<and> newPatternOf X st p pkg = p) \<longrightarrow>
            preparePatterns X st patterns = Inr (patterns @ ws, st)) \<and>
         (replaceInTable X = moveEntry \<and> distinct ws \<and>
          (\<forall>p\<in>set ws. \<forall>pkg. getResolvedPattern st p = Some pkg \<longrightarrow>
             newPatternOf X st p pkg = p \<or> newPatternOf X st p pkg \<notin> set ws) \<longrightarrow>
          (\<forall>ps1 st1. preparePatterns X st patterns = Inr (ps1, st1) \<longrightarrow>
             (\<forall>p\<in>set ws. settled X st1 p) \<and>
             snd (preparePatterns_run X st1 ps1) = st1))"
proof (intro conjI impI allI)
  show "\<exists>log. replaced (snd (preparePatterns_run X st patterns)) = replaced st @ log \<and>
              (\<forall>c\<in>set log. fst c \<in> set ws \<and> fst c \<noteq> snd c)"
    using assms loop_log [of X ws patterns st] by (simp add: preparePatterns_run_def)
next
  assume "\<forall>p\<in>set ws. settled X st p"
  then show "snd (preparePatterns_run X st patterns) = st"
    using assms by (simp add: preparePatterns_run_def loop_settled)
next
  assume "\<forall>p\<in>set ws. \<exists>pkg. getResolvedPattern st p = Some pkg \<and> newPatternOf X st p pkg = p"
  then have "preparePatterns_loop X ws patterns st = (Inr (patterns @ ws), st)"
    by (rule loop_fixed)
  then show "preparePatterns X st patterns = Inr (patterns @ ws, st)"
    using assms by (simp add: preparePatterns_def preparePatterns_run_def)
next
  fix ps1 st1
  assume pre: "replaceInTable X = moveEntry \<and> distinct ws \<and>
          (\<forall>p\<in>set ws. \<forall>pkg. getResolvedPattern st p = Some pkg \<longrightarrow>
             newPatternOf X st p pkg = p \<or> newPatternOf X st p pkg \<notin> set ws)"
    and first: "preparePatterns X st patterns = Inr (ps1, st1)"
  from first assms have run: "preparePatterns_loop X ws patterns st = (Inr ps1, st1)"
    by (auto simp: preparePatterns_def preparePatterns_run_def split: prod.splits sum.splits)
  from pre have m: "replaceInTable X = moveEntry" and d: "distinct ws"
    and h: "\<forall>p\<in>set ws. \<forall>pkg. getResolvedPattern st p = Some pkg \<longrightarrow>
             newPatternOf X st p pkg = p \<or> newPatternOf X st p pkg \<notin> set ws"
    by simp_all
  from loop_settles [OF m d subset_refl h run]
  have all: "\<forall>p\<in>set ws. settled X st1 p" by simp
  have "st1 = snd (preparePatterns_loop X ws patterns st)" using run by simp
  then have sib1: "siblingWorkspaces st1 = Some ws"
    using loop_frame [of X ws patterns st] assms by simp
  have "snd (preparePatterns_run X st1 ps1) = st1"
    using sib1 all by (simp add: preparePatterns_run_def loop_settled)
  then show "snd (preparePatterns_run X st1 ps1) = st1" .
  show "\<forall>p\<in>set ws. settled X st1 p" by (rule all)
qed

theorem preparePatterns_second_call_no_aliasing_witness:
  "siblingWorkspaces (resolved0 tildeFlags) = Some [''a@1.0.0'', ''c@3.0.0''] \<and>
   replaceInTable ext0 = moveEntry \<and> distinct [''a@1.0.0'', ''c@3.0.0''] \<and>
   getResolvedPattern (resolved0 tildeFlags) ''a@1.0.0'' = Some (pkg0 ''a'' ''1.0.0'') \<and>
   newPatternOf ext0 (resolved0 tildeFlags) ''a@1.0.0'' (pkg0 ''a'' ''1.0.0'') = ''a@~1.0.0'' \<and>
   getResolvedPattern (resolved0 tildeFlags) ''c@3.0.0'' = Some (pkg0 ''c'' ''3.0.0'') \<and>
   newPatternOf ext0 (resolved0 tildeFlags) ''c@3.0.0'' (pkg0 ''c'' ''3.0.0'') = ''c@~3.0.0'' \<and>
   preparePatterns ext0 (resolved0 tildeFlags) [] = Inr ([''a@~1.0.0'', ''c@~3.0.0''], canonicalizedTilde) \<and>
   replaced canonicalizedTilde = [(''a@1.0.0'', ''a@~1.0.0''), (''c@3.0.0'', ''c@~3.0.0'')] \<and>
   settled ext0 canonicalizedTilde ''a@1.0.0'' \<and> settled ext0 canonicalizedTilde ''c@3.0.0'' \<and>
   snd (preparePatterns_run ext0 canonicalizedTilde [''a@~1.0.0'', ''c@~3.0.0'']) = canonicalizedTilde \<and>
   fst (preparePatterns_run ext0 canonicalizedTilde [''a@~1.0.0'', ''c@~3.0.0'']) = Inl TypeError"
proof -
  let ?st = "resolved0 tildeFlags"
  have sib: "siblingWorkspaces ?st = Some [''a@1.0.0'', ''c@3.0.0'']"
    by (simp add: resolved0_def)
  have mv: "replaceInTable ext0 = moveEntry" by (simp add: ext0_def)
  have a: "getResolvedPattern ?st ''a@1.0.0'' = Some (pkg0 ''a'' ''1.0.0'')"
    and c: "getResolvedPattern ?st ''c@3.0.0'' = Some (pkg0 ''c'' ''3.0.0'')"
    by (simp_all add: getResolvedPattern_def resolved0_def)
  have na: "newPatternOf ext0 ?st ''a@1.0.0'' (pkg0 ''a'' ''1.0.0'') = ''a@~1.0.0''"
    and nc: "newPatternOf ext0 ?st ''c@3.0.0'' (pkg0 ''c'' ''3.0.0'') = ''c@~3.0.0''"
    by (simp_all add: run_defs)
  have first: "preparePatterns ext0 ?st [] = Inr ([''a@~1.0.0'', ''c@~3.0.0''], canonicalizedTilde)"
    unfolding canonicalizedTilde_def by (simp add: run_defs)
  have log: "replaced canonicalizedTilde = [(''a@1.0.0'', ''a@~1.0.0''), (''c@3.0.0'', ''c@~3.0.0'')]"
    unfolding canonicalizedTilde_def by (simp add: run_defs)
  have pre: "replaceInTable ext0 = moveEntry \<and> distinct [''a@1.0.0'', ''c@3.0.0''] \<and>
     (\<forall>p\<in>set [''a@1.0.0'', ''c@3.0.0'']. \<forall>pkg. getResolvedPattern ?st p = Some pkg \<longrightarrow>
        newPatternOf ext0 ?st p pkg = p \<or>
        newPatternOf ext0 ?st p pkg \<notin> set [''a@1.0.0'', ''c@3.0.0''])"
    using mv a c na nc by simp
  note inst = preparePatterns_second_call_no_aliasing [OF sib, of ext0 "[]"]
  from inst [THEN conjunct2, THEN conjunct2, THEN conjunct2, THEN mp, OF pre,
      THEN spec, THEN spec, THEN mp, OF first]
  have second: "settled ext0 canonicalizedTilde ''a@1.0.0'' \<and> settled ext0 canonicalizedTilde ''c@3.0.0'' \<and>
      snd (preparePatterns_run ext0 canonicalizedTilde [''a@~1.0.0'', ''c@~3.0.0'']) = canonicalizedTilde"
    by simp
  have thrown: "fst (preparePatterns_run ext0 canonicalizedTilde [''a@~1.0.0'', ''c@~3.0.0'']) = Inl TypeError"
    unfolding canonicalizedTilde_def by (simp add: run_defs)
  show ?thesis
    using sib mv a c na nc first log second thrown by simp
qed

text \<open>
  The hypothesis on the resolver matters: with the alias of the spec, where the old key
  stays in the table, a second call with the tilde flag repeats both calls.
\<close>

lemma alias_second_call_repeats:
  "replaced (snd (preparePatterns_run (ext0\<lparr>replaceInTable := aliasEntry\<rparr>)
      (snd (preparePatterns_run (ext0\<lparr>replaceInTable := aliasEntry\<rparr>) (resolved0 tildeFlags) []))
      [''a@~1.0.0'', ''c@~3.0.0''])) =
     [(''a@1.0.0'', ''a@~1.0.0''), (''c@3.0.0'', ''c@~3.0.0''),
      (''a@1.0.0'', ''a@~1.0.0''), (''c@3.0.0'', ''c@~3.0.0'')]"
  by (simp add: run_defs aliasEntry_def)

subsection \<open>Folding\<close>

lemma getPatternVersion_version_cong:
  assumes "version pkg' = version pkg"
  shows "getPatternVersion X fl cfg p pkg' = getPatternVersion X fl cfg p pkg"
  unfolding getPatternVersion_def keptVersion_def rangeKept_def assms by (rule refl)

lemma targetOf_name_cong:
  assumes "name pkg' = name pkg" and "rootPatternsToOrigin st' = rootPatternsToOrigin st"
    and "flagToOrigin st' = flagToOrigin st"
  shows "targetOf st' os pkg' = targetOf st os pkg"
  unfolding targetOf_def depTypeOf_def assms by (rule refl)

lemma sameFrame_refl: "sameFrame a st st"
  by (simp add: sameFrame_def)

lemma sameFrame_trans: "sameFrame a st st1 \<Longrightarrow> sameFrame a st1 st2 \<Longrightarrow> sameFrame a st st2"
  by (simp add: sameFrame_def)

lemma alreadyRecorded_frame:
  assumes "sameFrame a st st1"
  shows "alreadyRecorded X st1 a p = alreadyRecorded X st a p"
proof (cases "resolver_patterns st p")
  case None
  with assms show ?thesis
    by (simp add: alreadyRecorded_def getResolvedPattern_def sameFrame_def)
next
  case (Some b)
  from assms have nv: "name (heap st1 b) = name (heap st b)" "version (heap st1 b) = version (heap st b)"
    and rest: "rootPatternsToOrigin st1 = rootPatternsToOrigin st" "flagToOrigin st1 = flagToOrigin st"
      "flags st1 = flags st" "config st1 = config st" "resolver_patterns st1 = resolver_patterns st"
    and ent: "\<And>t n. entryOf (heap st1 a) t n = entryOf (heap st a) t n"
    by (simp_all add: sameFrame_def)
  show ?thesis
    using Some
    by (simp add: alreadyRecorded_def getResolvedPattern_def rest ent nv(1)
        getPatternVersion_version_cong [OF nv(2)] targetOf_name_cong [OF nv(1) rest(1,2)])
qed

lemma filter_shorter_iff: "length (filter (\<lambda>q. q \<noteq> p) ps) < length ps \<longleftrightarrow> p \<in> set ps"
  by (induction ps) (auto simp: less_Suc_eq_le)

lemma linkingCallback_step:
  assumes "linkingCallback a p reg t n v (ps, st) = Inr (ps', st')"
  shows "ps' = filter (\<lambda>q. q \<noteq> p) ps \<and> p \<in> set ps \<and> sameFrame a st st' \<and>
         backlinks (heap st' a) =
           backlinks (heap st a) @ (if entryOf (heap st a) t n = Some v then [] else [p])"
  using assms
  by (auto simp: linkingCallback_def Let_def filter_shorter_iff sameFrame_def entryOf_def
      backlinks_def split: if_splits option.splits)


lemma iterate_folds:
  assumes "iterateAddedPackages X os (linkingCallback a) ws (ps, st) = Inr (ps', st')"
    and "os = map fst (rootPatternsToOrigin st)"
  shows "ps' = filter (\<lambda>q. q \<notin> set ws) ps \<and> sameFrame a st st' \<and>
         backlinks (heap st' a) =
           backlinks (heap st a) @ filter (\<lambda>p. \<not> alreadyRecorded X st a p) ws"
  using assms
proof (induction ws arbitrary: ps st)
  case Nil
  then show ?case by (simp add: sameFrame_refl)
next
  case (Cons p ws)
  from Cons.prems(1) obtain pkg where pkg: "getResolvedPattern st p = Some pkg"
    by (auto split: option.splits)
  from Cons.prems(1) pkg obtain ref where ref: "reference pkg = Some ref"
    by (auto split: option.splits)
  let ?t = "targetOf st os pkg"
  let ?v = "getPatternVersion X (flags st) (config st) p pkg"
  from Cons.prems(1) pkg ref obtain ps1 st1 where
    cb: "linkingCallback a p (registry ref) ?t (name pkg) ?v (ps, st) = Inr (ps1, st1)"
    and rest: "iterateAddedPackages X os (linkingCallback a) ws (ps1, st1) = Inr (ps', st')"
    by (auto split: sum.splits)
  from linkingCallback_step [OF cb] have
    ps1: "ps1 = filter (\<lambda>q. q \<noteq> p) ps" and fr1: "sameFrame a st st1"
    and bl1: "backlinks (heap st1 a) =
                backlinks (heap st a) @ (if entryOf (heap st a) ?t (name pkg) = Some ?v then [] else [p])"
    by simp_all
  have os1: "os = map fst (rootPatternsToOrigin st1)"
    using fr1 Cons.prems(2) by (simp add: sameFrame_def)
  from Cons.IH [OF rest os1] have
    ps': "ps' = filter (\<lambda>q. q \<notin> set ws) ps1" and fr2: "sameFrame a st1 st'"
    and bl2: "backlinks (heap st' a) =
                backlinks (heap st1 a) @ filter (\<lambda>p. \<not> alreadyRecorded X st1 a p) ws"
    by simp_all
  have rec: "alreadyRecorded X st a p = (entryOf (heap st a) ?t (name pkg) = Some ?v)"
    using pkg Cons.prems(2) by (simp add: alreadyRecorded_def)
  have "ps' = filter (\<lambda>q. q \<notin> set (p # ws)) ps"
    unfolding ps' ps1 by (simp add: conj_commute)
  moreover have "sameFrame a st st'"
    using fr1 fr2 by (rule sameFrame_trans)
  moreover have "backlinks (heap st' a) =
      backlinks (heap st a) @ filter (\<lambda>p. \<not> alreadyRecorded X st a p) (p # ws)"
    unfolding bl2 bl1 by (simp add: alreadyRecorded_frame [OF fr1] rec)
  ultimately show ?case by blast
qed

lemma count_list_filter_distinct:
  "distinct ws \<Longrightarrow> count_list (filter P ws) s = (if s \<in> set ws \<and> P s then 1 else 0)"
  by (induction ws) auto

lemma count_list_app: "count_list (xs @ ys) s = count_list xs s + count_list ys s"
  by (induction xs) auto

lemmas fold_defs =
  preparePatternsForLinking_def getStrictResolvedPattern_def linkingCallback_def
  targetOf_def depTypeOf_def entryOf_def backlinks_def alreadyRecorded_def

lemma folded0_run:
  "preparePatternsForLinking ext0 (resolved0 defaultFlags)
     [''x@^1.0.0'', ''a@1.0.0'', ''c@3.0.0''] (pkg0 ''b'' ''2.0.0'') False = Inr folded0"
proof -
  have "\<not> isl (preparePatternsForLinking ext0 (resolved0 defaultFlags)
     [''x@^1.0.0'', ''a@1.0.0'', ''c@3.0.0''] (pkg0 ''b'' ''2.0.0'') False)"
    by (simp add: run_defs fold_defs)
  then show ?thesis
    unfolding folded0_def by simp
qed

lemma linkingCallback_succeeds:
  assumes "p \<in> set ps" and "reference (heap st a) \<noteq> None"
  shows "\<exists>r. linkingCallback a p reg t n v (ps, st) = Inr r"
  using assms
  by (auto simp: linkingCallback_def Let_def filter_shorter_iff split: option.splits)

lemma iterate_succeeds:
  assumes "distinct ws"
    and "\<forall>p\<in>set ws. p \<in> set ps \<and> (\<exists>pkg. getResolvedPattern st p = Some pkg \<and> reference pkg \<noteq> None)"
    and "reference (heap st a) \<noteq> None"
  shows "\<exists>r. iterateAddedPackages X os (linkingCallback a) ws (ps, st) = Inr r"
  using assms
proof (induction ws arbitrary: ps st)
  case Nil
  then show ?case by simp
next
  case (Cons p ws)
  from Cons.prems(2) obtain pkg ref where pkg: "getResolvedPattern st p = Some pkg"
    and ref: "reference pkg = Some ref" and inp: "p \<in> set ps"
    by auto
  let ?t = "targetOf st os pkg"
  let ?v = "getPatternVersion X (flags st) (config st) p pkg"
  from linkingCallback_succeeds [OF inp Cons.prems(3)] obtain ps1 st1 where
    cb: "linkingCallback a p (registry ref) ?t (name pkg) ?v (ps, st) = Inr (ps1, st1)"
    by (metis surj_pair)
  from linkingCallback_step [OF cb] have
    ps1: "ps1 = filter (\<lambda>q. q \<noteq> p) ps" and fr: "sameFrame a st st1"
    by simp_all
  have d: "distinct ws" and pn: "p \<notin> set ws"
    using Cons.prems(1) by simp_all
  have look: "\<forall>q\<in>set ws. q \<in> set ps1 \<and>
      (\<exists>pkg. getResolvedPattern st1 q = Some pkg \<and> reference pkg \<noteq> None)"
  proof
    fix q assume q: "q \<in> set ws"
    with Cons.prems(2) obtain pk where pk: "q \<in> set ps" "getResolvedPattern st q = Some pk"
      "reference pk \<noteq> None"
      by auto
    from pk(2) obtain b where b: "resolver_patterns st q = Some b" "pk = heap st b"
      by (auto simp: getResolvedPattern_def)
    have "getResolvedPattern st1 q = Some (heap st1 b)"
      using fr b(1) by (simp add: getResolvedPattern_def sameFrame_def)
    moreover have "reference (heap st1 b) \<noteq> None"
      using fr pk(3) b(2) by (simp add: sameFrame_def)
    moreover have "q \<in> set ps1"
      using q pn pk(1) ps1 by auto
    ultimately show "q \<in> set ps1 \<and>
      (\<exists>pkg. getResolvedPattern st1 q = Some pkg \<and> reference pkg \<noteq> None)"
      by blast
  qed
  have ra: "reference (heap st1 a) \<noteq> None"
    using fr Cons.prems(3) by (simp add: sameFrame_def)
  from Cons.IH [OF d look ra] obtain r where
    "iterateAddedPackages X os (linkingCallback a) ws (ps1, st1) = Inr r"
    by blast
  then show ?case
    using pkg ref cb by simp
qed

text \<open>
  C1 (amended). For a target that is not the root and whose own package resolves (to the
  manifest at address \<open>a\<close>), whenever \<open>preparePatternsForLinking\<close> returns normally:
  the answered list is the given list without the sibling patterns, so no sibling pattern
  is left in it; every bucket entry of the target's manifest is what it was (the bucket
  of a sibling's dependency type is created when absent, and no entry is written); and
  the dependency list of the target's reference is the old list followed by the sibling
  patterns, in order, except those whose package the bucket already records at the
  computed version. So a sibling pattern that is not so recorded and was not in the old
  list occurs exactly once in the new one, the siblings being distinct. The call does
  return normally when the siblings are distinct, each of them is in the given list and
  resolves to a package with a reference, and the target's manifest has a reference.
\<close>

theorem preparePatternsForLinking_folds_siblings:
  assumes "getStrictResolvedPattern st (name m @ ''@'' @ version m) = Inr a"
    and "siblingWorkspaces st = Some ws"
  shows "(\<forall>ps' st'. preparePatternsForLinking X st patterns m False = Inr (ps', st') \<longrightarrow>
           ps' = filter (\<lambda>q. q \<notin> set ws) patterns \<and>
           (\<forall>s\<in>set ws. s \<notin> set ps') \<and>
           (\<forall>t n. entryOf (heap st' a) t n = entryOf (heap st a) t n) \<and>
           backlinks (heap st' a) =
             backlinks (heap st a) @ filter (\<lambda>p. \<not> alreadyRecorded X st a p) ws \<and>
           (\<forall>s\<in>set ws. distinct ws \<and> \<not> alreadyRecorded X st a s \<and>
                        s \<notin> set (backlinks (heap st a)) \<longrightarrow>
              count_list (backlinks (heap st' a)) s = 1)) \<and>
         (distinct ws \<and> reference (heap st a) \<noteq> None \<and>
          (\<forall>p\<in>set ws. p \<in> set patterns \<and>
             (\<exists>pkg. getResolvedPattern st p = Some pkg \<and> reference pkg \<noteq> None)) \<longrightarrow>
          (\<exists>r. preparePatternsForLinking X st patterns m False = Inr r))"
proof (intro conjI allI impI)
  fix ps' st'
  assume ret: "preparePatternsForLinking X st patterns m False = Inr (ps', st')"
  with assms have run:
    "iterateAddedPackages X (map fst (rootPatternsToOrigin st)) (linkingCallback a) ws (patterns, st) =
       Inr (ps', st')"
    by (simp add: preparePatternsForLinking_def)
  from iterate_folds [OF run refl] have
    ps: "ps' = filter (\<lambda>q. q \<notin> set ws) patterns" and fr: "sameFrame a st st'"
    and bl: "backlinks (heap st' a) =
               backlinks (heap st a) @ filter (\<lambda>p. \<not> alreadyRecorded X st a p) ws"
    by simp_all
  show "ps' = filter (\<lambda>q. q \<notin> set ws) patterns" by (rule ps)
  show "\<forall>s\<in>set ws. s \<notin> set ps'" using ps by simp
  show "backlinks (heap st' a) =
          backlinks (heap st a) @ filter (\<lambda>p. \<not> alreadyRecorded X st a p) ws"
    by (rule bl)
  show "\<forall>s\<in>set ws. distinct ws \<and> \<not> alreadyRecorded X st a s \<and>
                   s \<notin> set (backlinks (heap st a)) \<longrightarrow>
          count_list (backlinks (heap st' a)) s = 1"
    by (simp add: bl count_list_app count_list_filter_distinct)
  fix t n
  show "entryOf (heap st' a) t n = entryOf (heap st a) t n"
    using fr by (simp add: sameFrame_def)
next
  assume pre: "distinct ws \<and> reference (heap st a) \<noteq> None \<and>
          (\<forall>p\<in>set ws. p \<in> set patterns \<and>
             (\<exists>pkg. getResolvedPattern st p = Some pkg \<and> reference pkg \<noteq> None))"
  then obtain r where
    "iterateAddedPackages X (map fst (rootPatternsToOrigin st)) (linkingCallback a) ws (patterns, st) = Inr r"
    using iterate_succeeds [of ws patterns st a X] by blast
  then show "\<exists>r. preparePatternsForLinking X st patterns m False = Inr r"
    using assms by (simp add: preparePatternsForLinking_def)
qed

theorem preparePatternsForLinking_folds_siblings_witness:
  "getStrictResolvedPattern (resolved0 defaultFlags)
     (name (pkg0 ''b'' ''2.0.0'') @ ''@'' @ version (pkg0 ''b'' ''2.0.0'')) = Inr 2 \<and>
   siblingWorkspaces (resolved0 defaultFlags) = Some [''a@1.0.0'', ''c@3.0.0''] \<and>
   distinct [''a@1.0.0'', ''c@3.0.0''] \<and>
   reference (heap (resolved0 defaultFlags) 2) \<noteq> None \<and>
   getResolvedPattern (resolved0 defaultFlags) ''a@1.0.0'' = Some (pkg0 ''a'' ''1.0.0'') \<and>
   getResolvedPattern (resolved0 defaultFlags) ''c@3.0.0'' = Some (pkg0 ''c'' ''3.0.0'') \<and>
   reference (pkg0 ''a'' ''1.0.0'') \<noteq> None \<and> reference (pkg0 ''c'' ''3.0.0'') \<noteq> None \<and>
   preparePatternsForLinking ext0 (resolved0 defaultFlags)
     [''x@^1.0.0'', ''a@1.0.0'', ''c@3.0.0''] (pkg0 ''b'' ''2.0.0'') False = Inr folded0 \<and>
   fst folded0 = [''x@^1.0.0''] \<and>
   backlinks (heap (snd folded0) 2) = [''a@1.0.0'', ''c@3.0.0''] \<and>
   count_list (backlinks (heap (snd folded0) 2)) ''a@1.0.0'' = 1"
proof -
  let ?ps = "[''x@^1.0.0'', ''a@1.0.0'', ''c@3.0.0'']"
  have h1: "getStrictResolvedPattern (resolved0 defaultFlags)
     (name (pkg0 ''b'' ''2.0.0'') @ ''@'' @ version (pkg0 ''b'' ''2.0.0'')) = Inr 2"
    by (simp add: getStrictResolvedPattern_def resolved0_def pkg0_def)
  have h2: "siblingWorkspaces (resolved0 defaultFlags) = Some [''a@1.0.0'', ''c@3.0.0'']"
    by (simp add: resolved0_def)
  note inst = preparePatternsForLinking_folds_siblings [OF h1 h2, of ext0 ?ps]
  have a: "getResolvedPattern (resolved0 defaultFlags) ''a@1.0.0'' = Some (pkg0 ''a'' ''1.0.0'')"
    and c: "getResolvedPattern (resolved0 defaultFlags) ''c@3.0.0'' = Some (pkg0 ''c'' ''3.0.0'')"
    by (simp_all add: getResolvedPattern_def resolved0_def)
  have refs: "reference (heap (resolved0 defaultFlags) 2) \<noteq> None"
    "reference (pkg0 ''a'' ''1.0.0'') \<noteq> None" "reference (pkg0 ''c'' ''3.0.0'') \<noteq> None"
    by (simp_all add: resolved0_def pkg0_def)
  have pre: "distinct [''a@1.0.0'', ''c@3.0.0''] \<and> reference (heap (resolved0 defaultFlags) 2) \<noteq> None \<and>
     (\<forall>p\<in>set [''a@1.0.0'', ''c@3.0.0'']. p \<in> set ?ps \<and>
        (\<exists>pkg. getResolvedPattern (resolved0 defaultFlags) p = Some pkg \<and> reference pkg \<noteq> None))"
    using a c refs by simp
  from inst [THEN conjunct2, THEN mp, OF pre] have
    h3: "preparePatternsForLinking ext0 (resolved0 defaultFlags) ?ps (pkg0 ''b'' ''2.0.0'') False =
           Inr (fst folded0, snd folded0)"
    unfolding folded0_def by auto
  then have h3': "preparePatternsForLinking ext0 (resolved0 defaultFlags) ?ps (pkg0 ''b'' ''2.0.0'') False =
           Inr folded0"
    by simp
  have old: "backlinks (heap (resolved0 defaultFlags) 2) = []"
    by (simp add: backlinks_def resolved0_def pkg0_def)
  have new: "\<not> alreadyRecorded ext0 (resolved0 defaultFlags) 2 ''a@1.0.0''"
    "\<not> alreadyRecorded ext0 (resolved0 defaultFlags) 2 ''c@3.0.0''"
    by (simp_all add: run_defs fold_defs)
  from inst [THEN conjunct1, THEN spec, THEN spec, THEN mp, OF h3] old new
  have "fst folded0 = [''x@^1.0.0''] \<and>
        backlinks (heap (snd folded0) 2) = [''a@1.0.0'', ''c@3.0.0''] \<and>
        count_list (backlinks (heap (snd folded0) 2)) ''a@1.0.0'' = 1"
    by simp
  then show ?thesis
    using h1 h2 h3' a c refs by simp
qed

text \<open>
  Where the claim as written fails: after a successful fold in the concrete project the
  sibling \<open>c\<close> is in no dependency bucket of \<open>b\<close>'s manifest.
\<close>

theorem preparePatternsForLinking_no_manifest_entry_counterexample:
  "preparePatternsForLinking ext0 (resolved0 defaultFlags)
     [''x@^1.0.0'', ''a@1.0.0'', ''c@3.0.0''] (pkg0 ''b'' ''2.0.0'') False = Inr folded0 \<and>
   fst folded0 = [''x@^1.0.0''] \<and>
   entryOf (heap (snd folded0) 2) ''dependencies'' ''c'' = None \<and>
   entryOf (heap (snd folded0) 2) ''devDependencies'' ''c'' = None \<and>
   entryOf (heap (snd folded0) 2) ''optionalDependencies'' ''c'' = None"
proof -
  have "fst folded0 = [''x@^1.0.0'']"
    and "entryOf (heap (snd folded0) 2) ''dependencies'' ''c'' = None"
    and "entryOf (heap (snd folded0) 2) ''devDependencies'' ''c'' = None"
    and "entryOf (heap (snd folded0) 2) ''optionalDependencies'' ''c'' = None"
    unfolding folded0_def by (simp_all add: run_defs fold_defs)
  with folded0_run show ?thesis by simp
qed


subsection \<open>The scenario of the spec\<close>



end
